theory Spec2Isabelle
  imports
    Main
    "HOL-Library.Char_ord"
    "HOL-Library.List_Lexorder"
    "HOL-Library.Product_Lexorder"
    "HOL-Library.Multiset"
begin

section \<open>KO2Pathway: a shallow embedding of \<^verbatim>\<open>KO2Pathway.py\<close>\<close>

text \<open>
  The script maps KEGG Orthology codes to pathways: it normalises a two-column table
  (\<^verbatim>\<open>preprocess_input\<close>), resolves each code through the KEGG REST service or a cache
  file (\<^verbatim>\<open>fetch_ko_pathway_mapping\<close>), fetches one description per pathway
  (\<^verbatim>\<open>fetch_pathway_descriptions\<close>), and groups, filters, deduplicates, sorts, saves and
  optionally plots the result (\<^verbatim>\<open>main\<close>).

  A Python string is modelled as a \<^typ>\<open>string\<close> whose characters are the code points
  below 256; on these, the character classes below are those of Python 3. Exceptions are
  values of \<open>error\<close>; the file system, the remote service and the sequence of requests
  and sleeps are fields of an explicit \<open>world\<close>.
\<close>

subsection \<open>Strings\<close>

definition TAB :: char where "TAB = CHR 0x09"
definition LF :: char where "LF = CHR 0x0A"
definition CR :: char where "CR = CHR 0x0D"
definition QUOTE :: char where "QUOTE = CHR 0x22"

text \<open>\<^verbatim>\<open>str.isspace\<close> on one character.\<close>

definition isspace :: "char \<Rightarrow> bool" where
  "isspace c = (let n = (of_char c :: nat)
                in (9 \<le> n \<and> n \<le> 13) \<or> (28 \<le> n \<and> n \<le> 32) \<or> n = 133 \<or> n = 160)"

text \<open>The class \<^verbatim>\<open>\d\<close> of a \<^verbatim>\<open>str\<close> pattern, and the class \<^verbatim>\<open>[A-Z]\<close>.\<close>

definition isdigit :: "char \<Rightarrow> bool" where
  "isdigit c = (let n = (of_char c :: nat) in 48 \<le> n \<and> n \<le> 57)"

definition isupper_AZ :: "char \<Rightarrow> bool" where
  "isupper_AZ c = (let n = (of_char c :: nat) in 65 \<le> n \<and> n \<le> 90)"

definition isalpha_ascii :: "char \<Rightarrow> bool" where
  "isalpha_ascii c = (let n = (of_char c :: nat)
                      in (65 \<le> n \<and> n \<le> 90) \<or> (97 \<le> n \<and> n \<le> 122))"

text \<open>\<^verbatim>\<open>str.lower\<close>: the letters A-Z and the capital letters of the Latin-1 block.\<close>

definition lower_char :: "char \<Rightarrow> char" where
  "lower_char c = (let n = (of_char c :: nat)
                   in if (65 \<le> n \<and> n \<le> 90) \<or> (192 \<le> n \<and> n \<le> 222 \<and> n \<noteq> 215)
                      then char_of (n + 32) else c)"

definition lower :: "string \<Rightarrow> string" where
  "lower s = map lower_char s"

text \<open>\<^verbatim>\<open>str.strip()\<close>.\<close>

definition strip :: "string \<Rightarrow> string" where
  "strip s = rev (dropWhile isspace (rev (dropWhile isspace s)))"

text \<open>
  \<^verbatim>\<open>str.split(sep)\<close> for a one-character separator: the pieces between the separators,
  always at least one piece. \<open>split_where\<close> cuts at every character of a class.
\<close>

fun split_where :: "(char \<Rightarrow> bool) \<Rightarrow> string \<Rightarrow> string list" where
  "split_where P [] = [[]]"
| "split_where P (c # s) =
     (if P c then [] # split_where P s
      else (case split_where P s of
              piece # pieces \<Rightarrow> (c # piece) # pieces
            | [] \<Rightarrow> [[c]]))"

definition split_on :: "char \<Rightarrow> string \<Rightarrow> string list" where
  "split_on sep s = split_where (\<lambda>c. c = sep) s"

text \<open>\<^verbatim>\<open>sep.join(parts)\<close>.\<close>

fun join :: "string \<Rightarrow> string list \<Rightarrow> string" where
  "join sep [] = []"
| "join sep [x] = x"
| "join sep (x # y # ys) = x @ sep @ join sep (y # ys)"

text \<open>\<^verbatim>\<open>str.startswith\<close> and the substring test \<^verbatim>\<open>t in s\<close>.\<close>

fun startswith :: "string \<Rightarrow> string \<Rightarrow> bool" where
  "startswith [] s = True"
| "startswith (p # ps) [] = False"
| "startswith (p # ps) (c # s) = (p = c \<and> startswith ps s)"

fun contains :: "string \<Rightarrow> string \<Rightarrow> bool" where
  "contains t [] = (t = [])"
| "contains t (c # s) = (startswith t (c # s) \<or> contains t s)"

text \<open>
  \<^verbatim>\<open>s.replace(old, '')\<close>: every non-overlapping occurrence of \<open>old\<close>, found from the
  left, is removed.
\<close>

function str_remove :: "string \<Rightarrow> string \<Rightarrow> string" where
  "str_remove old [] = []"
| "str_remove old (c # s) =
     (if old \<noteq> [] \<and> startswith old (c # s)
      then str_remove old (drop (length old) (c # s))
      else c # str_remove old s)"
  by pat_completeness auto
termination
  by (relation "measure (\<lambda>(old, s). length s)") auto

text \<open>The decimal form of a count, as \<^verbatim>\<open>str(n)\<close> writes it.\<close>

fun str_of_nat :: "nat \<Rightarrow> string" where
  "str_of_nat n =
     (if n < 10 then [char_of (48 + n)]
      else str_of_nat (n div 10) @ [char_of (48 + n mod 10)])"

subsection \<open>Errors, the world, requests\<close>

datatype error =
    FileNotFoundError
  | EmptyDataError
  | AttributeError
  | KeyError string
  | IndexError
  | ConnectionError
  | Unmodelled

text \<open>
  \<open>Unmodelled\<close> is no Python exception: the model returns it where the behaviour of
  \<^verbatim>\<open>pandas\<close> or \<^verbatim>\<open>re\<close> on the input is outside what is modelled (quoted
  fields, type inference on numeric-looking cells, patterns with metacharacters).
\<close>

datatype response = Response (status_code: nat) (resp_text: string)

datatype event = Get string | Sleep nat

text \<open>
  \<open>files\<close> is the file system (path to text), \<open>server\<close> the remote service: the
  answer to the \<open>n\<close>-th request of the run for a URL, \<open>None\<close> when
  \<^verbatim>\<open>requests.get\<close> raises. \<open>trace\<close> records every request and every sleep (in
  milliseconds) in order, \<open>charts\<close> the figures saved by \<^verbatim>\<open>plt.savefig\<close>.
\<close>

record world =
  files :: "string \<rightharpoonup> string"
  server :: "nat \<Rightarrow> string \<Rightarrow> response option"
  trace :: "event list"
  charts :: "string \<rightharpoonup> (string \<times> nat) list"

fun is_get :: "event \<Rightarrow> bool" where
  "is_get (Get u) = True"
| "is_get (Sleep n) = False"

definition requests_get :: "world \<Rightarrow> string \<Rightarrow> response option \<times> world" where
  "requests_get w url =
     (server w (length (filter is_get (trace w))) url, w\<lparr>trace := trace w @ [Get url]\<rparr>)"

definition sleep :: "world \<Rightarrow> nat \<Rightarrow> world" where
  "sleep w ms = w\<lparr>trace := trace w @ [Sleep ms]\<rparr>"

subsection \<open>Tab-separated files\<close>

text \<open>
  What \<^verbatim>\<open>pd.read_csv(..., sep='\t')\<close> makes of a text: the non-empty lines, each cut
  at the tabs. Quoting, carriage returns and lines that start with a blank are not
  modelled.
\<close>

definition csv_lines :: "string \<Rightarrow> error + string list list" where
  "csv_lines txt =
     (let ls = filter (\<lambda>l. l \<noteq> []) (split_on LF txt)
      in if QUOTE \<in> set txt \<or> CR \<in> set txt \<or> (\<exists>l \<in> set ls. hd l = CHR '' '')
         then Inl Unmodelled
         else Inr (map (split_on TAB) ls))"

text \<open>The fields \<^verbatim>\<open>read_csv\<close> reads as missing (its default \<^verbatim>\<open>na_values\<close>).\<close>

definition na_values :: "string list" where
  "na_values = ['''', ''#N/A'', ''#N/A N/A'', ''#NA'', ''-1.#IND'', ''-1.#QNAN'', ''-NaN'',
     ''-nan'', ''1.#IND'', ''1.#QNAN'', ''<NA>'', ''N/A'', ''NA'', ''NULL'', ''NaN'', ''None'',
     ''n/a'', ''nan'', ''null'']"

text \<open>
  A field that \<^verbatim>\<open>read_csv\<close> keeps as the string it is, whatever else its column holds:
  the placeholder \<^verbatim>\<open>-\<close>, or a field that starts with a letter and is not a spelling of
  a missing value, an infinity or a truth value.
\<close>

definition text_cell :: "string \<Rightarrow> bool" where
  "text_cell s =
     (s = ''-'' \<or>
      (s \<noteq> [] \<and> isalpha_ascii (hd s) \<and>
       lower s \<notin> set [''na'', ''n/a'', ''nan'', ''null'', ''none'', ''inf'', ''infinity'',
                       ''true'', ''false'']))"

fun collect :: "(error + 'a) list \<Rightarrow> error + 'a list" where
  "collect [] = Inr []"
| "collect (Inl e # xs) = Inl e"
| "collect (Inr x # xs) = (case collect xs of Inl e \<Rightarrow> Inl e | Inr ys \<Rightarrow> Inr (x # ys))"

subsection \<open>The identifier normalizer: \<^verbatim>\<open>preprocess_input\<close>\<close>

text \<open>
  A row of the table read with \<^verbatim>\<open>header=None, names=['gene', 'ko_raw']\<close>: the gene
  field as text (its dtype plays no part below) and the \<^verbatim>\<open>ko_raw\<close> cell, \<open>None\<close>
  for NaN.
\<close>

type_synonym raw_row = "string \<times> string option"

fun raw_row_of :: "string list \<Rightarrow> error + raw_row" where
  "raw_row_of [g] = Inr (g, None)"
| "raw_row_of [g, k] =
     (if k \<in> set na_values then Inr (g, None)
      else if text_cell k then Inr (g, Some k)
      else Inl Unmodelled)"
| "raw_row_of fs = Inl Unmodelled"

text \<open>
  With the column names given, a file without any line gives the empty table, not an
  error.
\<close>

definition read_input :: "string \<Rightarrow> error + raw_row list" where
  "read_input txt =
     (case csv_lines txt of
        Inl e \<Rightarrow> Inl e
      | Inr ls \<Rightarrow> collect (map raw_row_of ls))"

text \<open>
  \<^verbatim>\<open>re.match\<close> of a pattern \<^verbatim>\<open>^X\d{5}$\<close>, for a class \<open>X\<close> of first characters.
  In Python \<^verbatim>\<open>$\<close> also matches before a final newline.
\<close>

definition re_match_d5 :: "(char \<Rightarrow> bool) \<Rightarrow> string \<Rightarrow> bool" where
  "re_match_d5 X s =
     (case s of
        [] \<Rightarrow> False
      | c # ds \<Rightarrow> X c \<and> list_all isdigit (take 5 ds) \<and> (length ds = 5 \<or> drop 5 ds = [LF]))"

text \<open>The pattern of the code, \<^verbatim>\<open>^K\d{5}$\<close>.\<close>

definition match_K5 :: "string \<Rightarrow> bool" where
  "match_K5 s = re_match_d5 (\<lambda>c. c = CHR ''K'') s"

text \<open>
  The steps of \<^verbatim>\<open>preprocess_input\<close> after the table is read: keep the rows whose
  \<^verbatim>\<open>ko_raw\<close> is present and not \<^verbatim>\<open>-\<close>, split at the commas and explode, remove
  \<^verbatim>\<open>ko:\<close>, keep the matches of \<^verbatim>\<open>^K\d{5}$\<close>. The result is the list of
  (gene, ko) rows.
\<close>

definition explode_ko :: "raw_row list \<Rightarrow> (string \<times> string) list" where
  "explode_ko rs =
     concat (map (\<lambda>(g, r). case r of
                              None \<Rightarrow> []
                            | Some raw \<Rightarrow> if raw = ''-'' then []
                                          else map (\<lambda>k. (g, k)) (split_on CHR '','' raw)) rs)"

definition preprocess_rows :: "raw_row list \<Rightarrow> (string \<times> string) list" where
  "preprocess_rows rs =
     filter (\<lambda>(g, k). match_K5 k)
       (map (\<lambda>(g, k). (g, str_remove ''ko:'' k)) (explode_ko rs))"

text \<open>
  The \<^verbatim>\<open>.str\<close> accessor raises \<^verbatim>\<open>AttributeError\<close> on a column of missing values
  only (a float column); the column of the empty table holds objects and is accepted.
\<close>

definition preprocess_input :: "world \<Rightarrow> string \<Rightarrow> error + (string \<times> string) list" where
  "preprocess_input w input_file =
     (case files w input_file of
        None \<Rightarrow> Inl FileNotFoundError
      | Some txt \<Rightarrow>
          (case read_input txt of
             Inl e \<Rightarrow> Inl e
           | Inr rs \<Rightarrow> if rs \<noteq> [] \<and> list_all (\<lambda>(g, r). r = None) rs then Inl AttributeError
                       else Inr (preprocess_rows rs)))"

subsection \<open>Data frames and their tab-separated form\<close>

text \<open>
  A \<^verbatim>\<open>DataFrame\<close> of strings: the column labels and the rows, each row with one cell
  per column. \<^verbatim>\<open>pd.DataFrame(records)\<close> of an empty list has no column at all.
\<close>

record dataframe =
  columns :: "string list"
  rows :: "string list list"

definition DataFrame :: "(string \<times> string) list \<Rightarrow> dataframe" where
  "DataFrame records =
     (if records = [] then \<lparr>columns = [], rows = []\<rparr>
      else \<lparr>columns = [''ko'', ''pathway_id''], rows = map (\<lambda>(ko, pw). [ko, pw]) records\<rparr>)"

fun position :: "'a \<Rightarrow> 'a list \<Rightarrow> nat option" where
  "position x [] = None"
| "position x (y # ys) = (if x = y then Some 0 else map_option Suc (position x ys))"

text \<open>\<^verbatim>\<open>df[name]\<close>: the cells of one column, \<^verbatim>\<open>KeyError\<close> when there is none.\<close>

definition column :: "dataframe \<Rightarrow> string \<Rightarrow> error + string list" where
  "column df name =
     (case position name (columns df) of
        None \<Rightarrow> Inl (KeyError name)
      | Some i \<Rightarrow> Inr (map (\<lambda>r. r ! i) (rows df)))"

text \<open>
  \<^verbatim>\<open>to_csv(path, sep='\t', index=False)\<close>: the header line, then one line per row. A
  field is quoted when it holds a tab, a quote or a line break; a row of one empty field is
  written as two quotes. With no column the header line is empty.
\<close>

definition csv_field :: "string \<Rightarrow> string" where
  "csv_field s =
     (if \<exists>c \<in> set s. c = TAB \<or> c = QUOTE \<or> c = LF \<or> c = CR
      then [QUOTE] @ concat (map (\<lambda>c. if c = QUOTE then [c, c] else [c]) s) @ [QUOTE]
      else s)"

definition csv_line :: "string list \<Rightarrow> string" where
  "csv_line fs = (if fs = [[]] then [QUOTE, QUOTE] else join [TAB] (map csv_field fs)) @ [LF]"

definition to_csv :: "dataframe \<Rightarrow> string" where
  "to_csv df = concat (map csv_line (columns df # rows df))"

text \<open>
  \<^verbatim>\<open>pd.read_csv(path, sep='\t')\<close>: the first non-empty line is the header; a text with
  no such line raises \<^verbatim>\<open>EmptyDataError\<close>. Repeated or empty labels, ragged rows and
  cells that would not stay strings are not modelled.
\<close>

definition read_csv :: "string \<Rightarrow> error + dataframe" where
  "read_csv txt =
     (case csv_lines txt of
        Inl e \<Rightarrow> Inl e
      | Inr [] \<Rightarrow> Inl EmptyDataError
      | Inr (h # rs) \<Rightarrow>
          if \<not> distinct h \<or> [] \<in> set h \<or>
             (\<exists>r \<in> set rs. length r \<noteq> length h \<or> (\<exists>c \<in> set r. \<not> text_cell c))
          then Inl Unmodelled
          else Inr \<lparr>columns = h, rows = rs\<rparr>)"

subsection \<open>The pathway resolver: \<^verbatim>\<open>fetch_ko_pathway_mapping\<close>\<close>

text \<open>The records one response adds for code \<open>ko\<close> (lines 39 to 44).\<close>

definition link_records :: "string \<Rightarrow> string \<Rightarrow> (string \<times> string) list" where
  "link_records ko txt =
     concat (map (\<lambda>line.
        (case split_on TAB line of
           [a, b] \<Rightarrow> (let pw = str_remove ''path:'' b
                      in if startswith ''map'' pw then [(ko, pw)] else [])
         | parts \<Rightarrow> []))
       (split_on LF (strip txt)))"

text \<open>The loop over \<^verbatim>\<open>ko_list\<close>: one request and one sleep of 0.2 s per code.\<close>

definition link_url :: "string \<Rightarrow> string" where
  "link_url ko = ''https://rest.kegg.jp/link/pathway/ko:'' @ ko"

fun fetch_loop ::
  "world \<Rightarrow> string list \<Rightarrow> (string \<times> string) list
     \<Rightarrow> (error + (string \<times> string) list) \<times> world" where
  "fetch_loop w [] records = (Inr records, w)"
| "fetch_loop w (ko # kos) records =
     (case requests_get w (link_url ko) of
        (None, w1) \<Rightarrow> (Inl ConnectionError, w1)
      | (Some r, w1) \<Rightarrow>
          fetch_loop (sleep w1 200) kos
            (if status_code r = 200 \<and> strip (resp_text r) \<noteq> []
             then records @ link_records ko (resp_text r) else records))"

text \<open>\<^verbatim>\<open>cache_file and os.path.exists(cache_file)\<close>, giving the text of the file.\<close>

definition cached :: "world \<Rightarrow> string option \<Rightarrow> string option" where
  "cached w cache_file =
     (case cache_file of None \<Rightarrow> None | Some p \<Rightarrow> if p = [] then None else files w p)"

definition fetch_ko_pathway_mapping ::
  "world \<Rightarrow> string list \<Rightarrow> string option \<Rightarrow> (error + dataframe) \<times> world" where
  "fetch_ko_pathway_mapping w ko_list cache_file =
     (case cached w cache_file of
        Some txt \<Rightarrow> (read_csv txt, w)
      | None \<Rightarrow>
          (case fetch_loop w ko_list [] of
             (Inl e, w1) \<Rightarrow> (Inl e, w1)
           | (Inr records, w1) \<Rightarrow>
               (let mapping_df = DataFrame records
                in (Inr mapping_df,
                    (case cache_file of
                       None \<Rightarrow> w1
                     | Some p \<Rightarrow> if p = [] then w1
                                 else w1\<lparr>files := (files w1)(p \<mapsto> to_csv mapping_df)\<rparr>)))))"

subsection \<open>The description enricher: \<^verbatim>\<open>fetch_pathway_descriptions\<close>\<close>

text \<open>
  \<^verbatim>\<open>r.text.strip().split("\t")[1]\<close> raises \<^verbatim>\<open>IndexError\<close> when the text has no
  tab; the exception leaves the loop before the sleep.
\<close>

definition list_url :: "string \<Rightarrow> string" where
  "list_url pw = ''https://rest.kegg.jp/list/'' @ pw"

fun descriptions_loop ::
  "world \<Rightarrow> string list \<Rightarrow> (string \<rightharpoonup> string) \<Rightarrow> (error + (string \<rightharpoonup> string)) \<times> world" where
  "descriptions_loop w [] desc_map = (Inr desc_map, w)"
| "descriptions_loop w (pw # pws) desc_map =
     (case requests_get w (list_url pw) of
        (None, w1) \<Rightarrow> (Inl ConnectionError, w1)
      | (Some r, w1) \<Rightarrow>
          if status_code r = 200 \<and> strip (resp_text r) \<noteq> []
          then (case split_on TAB (strip (resp_text r)) of
                  a # desc # rest \<Rightarrow> descriptions_loop (sleep w1 200) pws (desc_map(pw \<mapsto> desc))
                | parts \<Rightarrow> (Inl IndexError, w1))
          else descriptions_loop (sleep w1 200) pws (desc_map(pw \<mapsto> ''Unknown'')))"

definition fetch_pathway_descriptions ::
  "world \<Rightarrow> string list \<Rightarrow> (error + (string \<rightharpoonup> string)) \<times> world" where
  "fetch_pathway_descriptions w pathway_ids = descriptions_loop w pathway_ids Map.empty"

subsection \<open>Aggregation, filtering and ranking (steps 3 to 5 of \<^verbatim>\<open>main\<close>)\<close>

record summary_row =
  pathway_id :: string
  pathway_description :: string
  KO_count :: nat

text \<open>\<^verbatim>\<open>Series.unique()\<close>: the distinct values in order of first appearance.\<close>

definition unique :: "'a list \<Rightarrow> 'a list" where
  "unique xs = rev (remdups (rev xs))"

text \<open>
  \<^verbatim>\<open>pathway_df["pathway_id"].map(pathway_desc_map)\<close> pairs every edge with its
  description; an identifier without one gets NaN, and \<^verbatim>\<open>groupby\<close> leaves such rows
  out. The result is the list of grouping keys, one per remaining edge.
\<close>

definition group_keys :: "string list \<Rightarrow> (string \<rightharpoonup> string) \<Rightarrow> (string \<times> string) list" where
  "group_keys pids desc_map = List.map_filter (\<lambda>p. map_option (Pair p) (desc_map p)) pids"

text \<open>
  \<^verbatim>\<open>groupby([...]).size().reset_index(name="KO_count")\<close>: one row per distinct key, the
  keys in ascending order (the default \<^verbatim>\<open>sort=True\<close>), with the number of edges that
  carry the key.
\<close>

definition groupby_size :: "(string \<times> string) list \<Rightarrow> summary_row list" where
  "groupby_size keys =
     map (\<lambda>k. \<lparr>pathway_id = fst k, pathway_description = snd k, KO_count = count_list keys k\<rparr>)
       (sort (remdups keys))"

text \<open>\<^verbatim>\<open>[line.strip().lower() for line in f if line.strip()]\<close>, with universal newlines.\<close>

definition read_terms :: "string \<Rightarrow> string list" where
  "read_terms txt =
     map (\<lambda>line. lower (strip line))
       (filter (\<lambda>line. strip line \<noteq> []) (split_where (\<lambda>c. c = LF \<or> c = CR) txt))"

text \<open>
  \<^verbatim>\<open>str.contains(pattern)\<close> searches for a regular expression. The model covers the
  patterns whose only special character is the bar: such a pattern is found in a text when
  one of its alternatives is a substring of the text.

  Line 153 first takes \<^verbatim>\<open>summary_df['pathway_description'].str\<close>. The aggregation of
  a mapping without rows has a float description column, on which the accessor raises
  \<^verbatim>\<open>AttributeError\<close>; a table with rows has a column of strings.
\<close>

definition regex_meta :: "char list" where
  "regex_meta = [CHR ''.'', CHR ''^'', CHR ''$'', CHR ''*'', CHR ''+'', CHR ''?'', CHR ''{'',
     CHR ''}'', CHR ''['', CHR '']'', CHR 0x5C, CHR ''('', CHR '')'']"

definition re_search :: "string \<Rightarrow> string \<Rightarrow> bool" where
  "re_search pattern s = list_ex (\<lambda>alt. contains alt s) (split_on CHR ''|'' pattern)"

definition exclude_rows :: "string list \<Rightarrow> summary_row list \<Rightarrow> error + summary_row list" where
  "exclude_rows exclude_terms summary_df =
     (let pattern = join ''|'' exclude_terms
      in if summary_df = [] then Inl AttributeError
         else if list_ex (\<lambda>c. c \<in> set regex_meta) pattern then Inl Unmodelled
         else Inr (filter (\<lambda>r. \<not> re_search pattern (lower (pathway_description r))) summary_df))"

text \<open>Step 5: \<^verbatim>\<open>if args.exclude:\<close> read the terms and filter.\<close>

definition filtering :: "world \<Rightarrow> string option \<Rightarrow> summary_row list \<Rightarrow> error + summary_row list" where
  "filtering w exclude summary_df =
     (case exclude of
        None \<Rightarrow> Inr summary_df
      | Some f \<Rightarrow>
          if f = [] then Inr summary_df
          else (case files w f of
                  None \<Rightarrow> Inl FileNotFoundError
                | Some txt \<Rightarrow> exclude_rows (read_terms txt) summary_df))"

text \<open>\<^verbatim>\<open>drop_duplicates(subset='pathway_description', keep='first')\<close>.\<close>

fun drop_duplicates_from :: "string list \<Rightarrow> summary_row list \<Rightarrow> summary_row list" where
  "drop_duplicates_from seen [] = []"
| "drop_duplicates_from seen (r # rs) =
     (if pathway_description r \<in> set seen then drop_duplicates_from seen rs
      else r # drop_duplicates_from (pathway_description r # seen) rs)"

definition drop_duplicates :: "summary_row list \<Rightarrow> summary_row list" where
  "drop_duplicates summary_df = drop_duplicates_from [] summary_df"

text \<open>The summary table as \<^verbatim>\<open>to_csv\<close> sees it.\<close>

definition summary_frame :: "summary_row list \<Rightarrow> dataframe" where
  "summary_frame summary_df =
     \<lparr>columns = [''pathway_id'', ''pathway_description'', ''KO_count''],
      rows = map (\<lambda>r. [pathway_id r, pathway_description r, str_of_nat (KO_count r)]) summary_df\<rparr>"

subsection \<open>The chart: \<^verbatim>\<open>plot_circular_barplot\<close>\<close>

text \<open>
  \<^verbatim>\<open>counts[0]\<close> (line 70) raises \<^verbatim>\<open>IndexError\<close> on an empty table. Otherwise the
  figure is drawn from the labels and the counts, and saved when a file name is given. A
  table whose counts are all zero (a tick step of zero) is not modelled.
\<close>

definition plot_circular_barplot ::
  "world \<Rightarrow> summary_row list \<Rightarrow> string \<Rightarrow> (error + unit) \<times> world" where
  "plot_circular_barplot w df output_plot =
     (let labels = map pathway_description df; counts = map KO_count df
      in case counts of
           [] \<Rightarrow> (Inl IndexError, w)
         | c0 # cs \<Rightarrow>
             if Max (set counts) = 0 then (Inl Unmodelled, w)
             else (Inr (),
                   if output_plot \<noteq> []
                   then w\<lparr>charts := (charts w)(output_plot \<mapsto> zip labels counts)\<rparr>
                   else w))"

subsection \<open>\<^verbatim>\<open>main\<close>\<close>

record args =
  input :: string
  exclude :: "string option"
  cache :: string
  plot :: bool
  output_file :: string
  plotfile :: string

text \<open>
  \<^verbatim>\<open>sort_values(by="KO_count", ascending=False)\<close> is given no \<^verbatim>\<open>kind\<close>; the order
  in which it leaves rows of equal count is decided inside the sorting library and not by
  this program. The row order it produces is therefore the parameter \<open>sort_values\<close> of
  \<open>main\<close>.
\<close>

definition main ::
  "(summary_row list \<Rightarrow> summary_row list) \<Rightarrow> args \<Rightarrow> world \<Rightarrow> (error + unit) \<times> world" where
  "main sort_values a w =
     (case preprocess_input w (input a) of
        Inl e \<Rightarrow> (Inl e, w)
      | Inr ko_df \<Rightarrow>
     (case fetch_ko_pathway_mapping w (unique (map snd ko_df)) (Some (cache a)) of
        (Inl e, w1) \<Rightarrow> (Inl e, w1)
      | (Inr pathway_df, w1) \<Rightarrow>
     (case column pathway_df ''pathway_id'' of
        Inl e \<Rightarrow> (Inl e, w1)
      | Inr pids \<Rightarrow>
     (case fetch_pathway_descriptions w1 (unique pids) of
        (Inl e, w2) \<Rightarrow> (Inl e, w2)
      | (Inr pathway_desc_map, w2) \<Rightarrow>
     (case filtering w2 (exclude a) (groupby_size (group_keys pids pathway_desc_map)) of
        Inl e \<Rightarrow> (Inl e, w2)
      | Inr filtered \<Rightarrow>
     (let summary_df = sort_values (drop_duplicates filtered);
          w3 = w2\<lparr>files := (files w2)(output_file a \<mapsto> to_csv (summary_frame summary_df))\<rparr>
      in if plot a then plot_circular_barplot w3 (take 20 summary_df) (plotfile a)
         else (Inr (), w3)))))))"

subsection \<open>The wording of the specification\<close>

text \<open>
  The specification's pattern \<^verbatim>\<open>^[A-Z]\d{5}$\<close>, and its "strip the namespace prefix":
  a leading \<open>p\<close> is taken off, once.
\<close>

definition match_spec :: "string \<Rightarrow> bool" where
  "match_spec s = re_match_d5 isupper_AZ s"

definition strip_prefix :: "string \<Rightarrow> string \<Rightarrow> string" where
  "strip_prefix p s = (if startswith p s then drop (length p) s else s)"


subsection \<open>Pacing of the requests\<close>

text \<open>
  A trace is paced when every request that is not its last event is followed at once by a
  sleep of 200 ms: no two requests without that delay between them. A trace is idle when
  it does not end with a request.
\<close>

fun paced :: "event list \<Rightarrow> bool" where
  "paced [] = True"
| "paced [e] = True"
| "paced (Get u # e # tr) = (e = Sleep 200 \<and> paced tr)"
| "paced (Sleep ms # e # tr) = paced (e # tr)"

definition idle :: "event list \<Rightarrow> bool" where
  "idle tr = (tr = [] \<or> \<not> is_get (last tr))"

subsection \<open>Cells that the cache file keeps as they are\<close>

text \<open>
  A plain cell is a text cell without tab, line break or quote; \<open>edge_line\<close> is the line
  of the cache file for one edge.
\<close>

definition plain_cell :: "string \<Rightarrow> bool" where
  "plain_cell s = (text_cell s \<and> (\<forall>c \<in> set s. c \<noteq> TAB \<and> c \<noteq> LF \<and> c \<noteq> CR \<and> c \<noteq> QUOTE))"

definition edge_line :: "string \<times> string \<Rightarrow> string" where
  "edge_line e = fst e @ [TAB] @ snd e"

text \<open>
  A cache file that stores the edges \<open>edges\<close>: the header line, then one line per edge;
  and the table with those edges as its rows.
\<close>

definition cache_file_text :: "(string \<times> string) list \<Rightarrow> string" where
  "cache_file_text edges =
     concat (map (\<lambda>l. l @ [LF]) (edge_line (''ko'', ''pathway_id'') # map edge_line edges))"

definition edge_frame :: "(string \<times> string) list \<Rightarrow> dataframe" where
  "edge_frame edges =
     \<lparr>columns = [''ko'', ''pathway_id''], rows = map (\<lambda>e. [fst e, snd e]) edges\<rparr>"

subsection \<open>Example inputs\<close>

text \<open>A cache file with the single edge (K00001, map00010), and a run without network.\<close>

definition cache_text :: string where
  "cache_text = ''ko'' @ [TAB] @ ''pathway_id'' @ [LF] @ ''K00001'' @ [TAB] @ ''map00010'' @ [LF]"

definition offline :: "nat \<Rightarrow> string \<Rightarrow> response option" where
  "offline n url = None"

definition cached_world :: world where
  "cached_world = \<lparr>files = [''kegg_ko_pathway_map.tsv'' \<mapsto> cache_text], server = offline,
     trace = [], charts = Map.empty\<rparr>"

text \<open>A service that knows no code, and a run that starts without any file.\<close>

definition not_found :: "nat \<Rightarrow> string \<Rightarrow> response option" where
  "not_found n url = Some (Response 404 [])"

definition fresh_world :: world where
  "fresh_world = \<lparr>files = Map.empty, server = not_found, trace = [], charts = Map.empty\<rparr>"

text \<open>A service whose answer is a single field, with no tab.\<close>

definition bare_line :: "nat \<Rightarrow> string \<Rightarrow> response option" where
  "bare_line n url = Some (Response 200 ''map00010'')"

definition bare_world :: world where
  "bare_world = \<lparr>files = Map.empty, server = bare_line, trace = [], charts = Map.empty\<rparr>"

text \<open>
  A complete run: one gene with the code K00001, which the service links to the pathway
  map00010 (and to ko00010, which the resolver discards); the exclusion file names the
  description of that pathway, and the chart is requested.
\<close>

definition kegg :: "nat \<Rightarrow> string \<Rightarrow> response option" where
  "kegg n url =
     (if url = ''https://rest.kegg.jp/link/pathway/ko:K00001''
      then Some (Response 200 (''ko:K00001'' @ [TAB] @ ''path:map00010'' @ [LF] @
                               ''ko:K00001'' @ [TAB] @ ''path:ko00010'' @ [LF]))
      else if url = ''https://rest.kegg.jp/list/map00010''
      then Some (Response 200 (''map00010'' @ [TAB] @ ''Glycolysis / Gluconeogenesis'' @ [LF]))
      else Some (Response 404 []))"

definition glycolysis_world :: world where
  "glycolysis_world =
     \<lparr>files = [''genes.tsv'' \<mapsto> ''g1'' @ [TAB] @ ''ko:K00001'' @ [LF],
               ''exclude.txt'' \<mapsto> ''Glycolysis'' @ [LF]],
      server = kegg, trace = [], charts = Map.empty\<rparr>"

definition glycolysis_args :: args where
  "glycolysis_args =
     \<lparr>input = ''genes.tsv'', exclude = Some ''exclude.txt'', cache = ''kegg_ko_pathway_map.tsv'',
      plot = True, output_file = ''kegg_pathway_summary.tsv'',
      plotfile = ''top20_pathways_circular_barplot.svg''\<rparr>"

text \<open>
  A descending sort by count. It stands for \<^verbatim>\<open>sort_values\<close> only where a run is
  evaluated on a table of at most one row, on which every sort agrees; on rows of equal
  count the real \<^verbatim>\<open>sort_values\<close> need not keep the incoming order as this one does.
\<close>

definition by_count_desc :: "summary_row list \<Rightarrow> summary_row list" where
  "by_count_desc rs = rev (sort_key KO_count (rev rs))"

text \<open>An input whose only code is a compound identifier.\<close>

definition compound_world :: world where
  "compound_world = \<lparr>files = [''genes.tsv'' \<mapsto> ''g1'' @ [TAB] @ ''C00001'' @ [LF]],
     server = offline, trace = [], charts = Map.empty\<rparr>"

text \<open>
  Exclusion files: one whose only term holds a bar, one with the plain term of the
  specification's example, and the summary tables they are applied to.
\<close>

definition bar_world :: world where
  "bar_world = \<lparr>files = [''exclude.txt'' \<mapsto> ''TCA|Krebs'' @ [LF]], server = offline,
     trace = [], charts = Map.empty\<rparr>"

definition citrate_row :: summary_row where
  "citrate_row = \<lparr>pathway_id = ''map00020'', pathway_description = ''Citrate cycle (TCA cycle)'',
     KO_count = 1\<rparr>"

definition metabolic_world :: world where
  "metabolic_world = \<lparr>files = [''exclude.txt'' \<mapsto> ''metabolic'' @ [LF]], server = offline,
     trace = [], charts = Map.empty\<rparr>"

definition two_rows :: "summary_row list" where
  "two_rows =
     [\<lparr>pathway_id = ''map01100'', pathway_description = ''Metabolic pathways'', KO_count = 2\<rparr>,
      \<lparr>pathway_id = ''map00010'', pathway_description = ''Glycolysis'', KO_count = 1\<rparr>]"

text \<open>
  A cache with two edges into map00010, for the codes K00001 and K00002, beside an input
  that names K00001 only; and a run with neither exclusion nor chart.
\<close>

definition wide_cache_text :: string where
  "wide_cache_text = ''ko'' @ [TAB] @ ''pathway_id'' @ [LF] @
     ''K00001'' @ [TAB] @ ''map00010'' @ [LF] @ ''K00002'' @ [TAB] @ ''map00010'' @ [LF]"

definition wide_cache_world :: world where
  "wide_cache_world =
     \<lparr>files = [''genes.tsv'' \<mapsto> ''g1'' @ [TAB] @ ''ko:K00001'' @ [LF],
               ''kegg_ko_pathway_map.tsv'' \<mapsto> wide_cache_text],
      server = kegg, trace = [], charts = Map.empty\<rparr>"

definition plain_args :: args where
  "plain_args =
     \<lparr>input = ''genes.tsv'', exclude = None, cache = ''kegg_ko_pathway_map.tsv'',
      plot = False, output_file = ''kegg_pathway_summary.tsv'',
      plotfile = ''top20_pathways_circular_barplot.svg''\<rparr>"

text \<open>
  A cache with the edges (K00002, map00020) and (K00001, map00010), in that order, beside
  an input that names K00001 only; the service knows no pathway, so both descriptions are
  "Unknown".
\<close>

definition unknown_world :: world where
  "unknown_world =
     \<lparr>files = [''genes.tsv'' \<mapsto> ''g1'' @ [TAB] @ ''ko:K00001'' @ [LF],
               ''kegg_ko_pathway_map.tsv'' \<mapsto>
                 cache_file_text [(''K00002'', ''map00020''), (''K00001'', ''map00010'')]],
      server = not_found, trace = [], charts = Map.empty\<rparr>"

section \<open>Properties\<close>

subsection \<open>The example row order is a descending sort\<close>

lemma by_count_desc_sorted:
  "sorted (rev (map KO_count (by_count_desc rs))) \<and> mset (by_count_desc rs) = mset rs"
  by (simp add: by_count_desc_def rev_map)

subsection \<open>Splitting and joining\<close>

lemma split_where_nonempty: "split_where P s \<noteq> []"
  by (induction s) (auto split: list.splits)

lemma split_where_plain: "\<forall>c \<in> set t. \<not> P c \<Longrightarrow> split_where P t = [t]"
  by (induction t) auto

lemma split_where_append_sep:
  "\<forall>c \<in> set t. \<not> P c \<Longrightarrow> P sep \<Longrightarrow> split_where P (t @ sep # s) = t # split_where P s"
  by (induction t) auto

lemma split_join:
  assumes "ts \<noteq> []" and "\<forall>t \<in> set ts. \<forall>c \<in> set t. c \<noteq> sep"
  shows "split_on sep (join [sep] ts) = ts"
  using assms
proof (induction "[sep]" ts rule: join.induct)
  case 1
  then show ?case by simp
next
  case (2 x)
  then show ?case by (simp add: split_on_def split_where_plain)
next
  case (3 x y ys)
  then have "split_on sep (join [sep] (y # ys)) = y # ys" by simp
  moreover have "\<forall>c \<in> set x. \<not> (c = sep)" using 3 by simp
  ultimately show ?case
    using split_where_append_sep [of x "\<lambda>c. c = sep" sep "join [sep] (y # ys)"]
    by (simp add: split_on_def)
qed

lemma set_join: "set (join sep ts) \<subseteq> set sep \<union> \<Union> (set ` set ts)"
  by (induction sep ts rule: join.induct) auto

subsection \<open>The cache round trip of a non-empty edge set\<close>

text \<open>
  Beside the failure at the empty edge set: a live pass that finds at least one edge, all
  of plain cells, writes a cache file from which the next run reads the same table.
\<close>

lemma csv_field_plain: "plain_cell s \<Longrightarrow> csv_field s = s"
  by (auto simp: plain_cell_def csv_field_def)

lemma plain_cell_nonempty: "plain_cell s \<Longrightarrow> s \<noteq> []"
  by (auto simp: plain_cell_def text_cell_def)

lemma plain_header: "plain_cell ''ko''" "plain_cell ''pathway_id''"
  by code_simp+

lemma csv_line_pair:
  "plain_cell k \<Longrightarrow> plain_cell p \<Longrightarrow> csv_line [k, p] = edge_line (k, p) @ [LF]"
  by (simp add: csv_line_def csv_field_plain edge_line_def)

lemma to_csv_DataFrame:
  assumes "records \<noteq> []" and "\<forall>e \<in> set records. plain_cell (fst e) \<and> plain_cell (snd e)"
  shows "to_csv (DataFrame records) =
     concat (map (\<lambda>l. l @ [LF]) (edge_line (''ko'', ''pathway_id'') # map edge_line records))"
proof -
  have "map (\<lambda>x. csv_line (case x of (ko, pw) \<Rightarrow> [ko, pw])) records =
        map (\<lambda>e. edge_line e @ [LF]) records"
    using assms(2) by (intro map_cong) (auto simp: csv_line_pair split: prod.splits)
  then have b: "concat (map (\<lambda>x. csv_line (case x of (ko, pw) \<Rightarrow> [ko, pw])) records) =
        concat (map (\<lambda>e. edge_line e @ [LF]) records)"
    by (rule arg_cong)
  have h: "csv_line [''ko'', ''pathway_id''] = edge_line (''ko'', ''pathway_id'') @ [LF]"
    using plain_header by (rule csv_line_pair)
  show ?thesis
    using assms(1) by (simp add: to_csv_def DataFrame_def comp_def b h)
qed

lemma split_lines:
  "\<forall>l \<in> set ls. \<forall>c \<in> set l. \<not> P c \<Longrightarrow> P sep \<Longrightarrow>
   split_where P (concat (map (\<lambda>l. l @ [sep]) ls)) = ls @ [[]]"
  by (induction ls) (simp_all add: split_where_append_sep)

lemma split_edge_line:
  assumes "plain_cell k" and "plain_cell p"
  shows "split_on TAB (edge_line (k, p)) = [k, p]"
proof -
  have "\<forall>c \<in> set k. \<not> (c = TAB)" "\<forall>c \<in> set p. \<not> (c = TAB)"
    using assms by (auto simp: plain_cell_def)
  then show ?thesis
    by (simp add: split_on_def edge_line_def split_where_append_sep split_where_plain)
qed

lemma edge_line_chars:
  assumes "plain_cell k" and "plain_cell p"
  shows "LF \<notin> set (edge_line (k, p))" "CR \<notin> set (edge_line (k, p))"
    "QUOTE \<notin> set (edge_line (k, p))" "edge_line (k, p) \<noteq> []"
    "hd (edge_line (k, p)) \<noteq> CHR '' ''"
proof -
  show "LF \<notin> set (edge_line (k, p))" "CR \<notin> set (edge_line (k, p))"
    "QUOTE \<notin> set (edge_line (k, p))"
    using assms by (auto simp: plain_cell_def edge_line_def TAB_def LF_def CR_def QUOTE_def)
  show "edge_line (k, p) \<noteq> []" by (simp add: edge_line_def)
  have "k \<noteq> []" using assms(1) by (rule plain_cell_nonempty)
  then have "hd (edge_line (k, p)) = hd k" by (simp add: edge_line_def)
  moreover have "hd k \<noteq> CHR '' ''"
    using assms(1) by (auto simp: plain_cell_def text_cell_def isalpha_ascii_def)
  ultimately show "hd (edge_line (k, p)) \<noteq> CHR '' ''" by simp
qed

lemma csv_lines_edges:
  assumes "\<forall>e \<in> set es. plain_cell (fst e) \<and> plain_cell (snd e)"
  shows "csv_lines (concat (map (\<lambda>l. l @ [LF]) (map edge_line es))) =
     Inr (map (\<lambda>e. [fst e, snd e]) es)"
proof -
  let ?ls = "map edge_line es"
  let ?txt = "concat (map (\<lambda>l. l @ [LF]) ?ls)"
  have facts: "\<forall>l \<in> set ?ls. LF \<notin> set l \<and> CR \<notin> set l \<and> QUOTE \<notin> set l \<and> l \<noteq> [] \<and>
      hd l \<noteq> CHR '' ''"
    using assms edge_line_chars by (auto simp del: edge_line_def)
  then have "\<forall>l \<in> set ?ls. \<forall>c \<in> set l. \<not> (c = LF)" by auto
  then have sp: "split_on LF ?txt = ?ls @ [[]]"
    unfolding split_on_def by (rule split_lines) simp
  have fl: "filter (\<lambda>l. l \<noteq> []) (?ls @ [[]]) = ?ls"
    using facts by (simp add: filter_id_conv)
  have q: "QUOTE \<notin> set ?txt" "CR \<notin> set ?txt"
    using facts by (auto simp: QUOTE_def CR_def LF_def)
  have h: "\<not> (\<exists>l \<in> set ?ls. hd l = CHR '' '')" using facts by blast
  have c: "\<not> (QUOTE \<in> set ?txt \<or> CR \<in> set ?txt \<or> (\<exists>l \<in> set ?ls. hd l = CHR '' ''))"
    using q h by blast
  have m: "map (split_on TAB) ?ls = map (\<lambda>e. [fst e, snd e]) es"
    using assms split_edge_line by (auto simp del: edge_line_def)
  show ?thesis
    unfolding csv_lines_def Let_def sp fl m using c by (simp only: if_False)
qed

lemma nonempty_cache_roundtrip:
  assumes "records \<noteq> []" and "\<forall>e \<in> set records. plain_cell (fst e) \<and> plain_cell (snd e)"
  shows "read_csv (to_csv (DataFrame records)) = Inr (DataFrame records)"
proof -
  let ?es = "(''ko'', ''pathway_id'') # records"
  have all: "\<forall>e \<in> set ?es. plain_cell (fst e) \<and> plain_cell (snd e)"
    using assms(2) plain_header by simp
  have "to_csv (DataFrame records) = concat (map (\<lambda>l. l @ [LF]) (map edge_line ?es))"
    using to_csv_DataFrame [OF assms] by simp
  then have l: "csv_lines (to_csv (DataFrame records)) = Inr (map (\<lambda>e. [fst e, snd e]) ?es)"
    using csv_lines_edges [OF all] by simp
  have cells: "\<forall>e \<in> set records. text_cell (fst e) \<and> text_cell (snd e)"
    using assms(2) by (auto simp: plain_cell_def)
  show ?thesis
    unfolding read_csv_def l
    using cells assms(1) by (auto simp: DataFrame_def case_prod_beta)
qed

lemma live_pass_then_reload:
  assumes "p \<noteq> []" and "files w p = None" and "fetch_loop w kos [] = (Inr records, w1)"
    and "records \<noteq> []" and "\<forall>e \<in> set records. plain_cell (fst e) \<and> plain_cell (snd e)"
  shows "fetch_ko_pathway_mapping w kos (Some p) =
           (Inr (DataFrame records), w1\<lparr>files := (files w1)(p \<mapsto> to_csv (DataFrame records))\<rparr>) \<and>
         fst (fetch_ko_pathway_mapping
                (w1\<lparr>files := (files w1)(p \<mapsto> to_csv (DataFrame records))\<rparr>) kos' (Some p)) =
           Inr (DataFrame records)"
  using assms(1-3) nonempty_cache_roundtrip [OF assms(4,5)]
  by (simp add: fetch_ko_pathway_mapping_def cached_def Let_def)

subsection \<open>The cache replaces live resolution\<close>

lemma read_cache_file_text:
  assumes "\<forall>e \<in> set edges. plain_cell (fst e) \<and> plain_cell (snd e)"
  shows "read_csv (cache_file_text edges) = Inr (edge_frame edges)"
proof -
  let ?es = "(''ko'', ''pathway_id'') # edges"
  have all: "\<forall>e \<in> set ?es. plain_cell (fst e) \<and> plain_cell (snd e)"
    using assms plain_header by simp
  have "cache_file_text edges = concat (map (\<lambda>l. l @ [LF]) (map edge_line ?es))"
    by (simp add: cache_file_text_def)
  then have l: "csv_lines (cache_file_text edges) = Inr (map (\<lambda>e. [fst e, snd e]) ?es)"
    using csv_lines_edges [OF all] by simp
  have cells: "\<forall>e \<in> set edges. text_cell (fst e) \<and> text_cell (snd e)"
    using assms by (auto simp: plain_cell_def)
  show ?thesis
    unfolding read_csv_def l
    using cells by (auto simp: edge_frame_def)
qed

lemma fetch_cached:
  assumes "p \<noteq> []" and "files w p = Some content"
  shows "fetch_ko_pathway_mapping w ko_list (Some p) = (read_csv content, w)"
  using assms by (simp add: fetch_ko_pathway_mapping_def cached_def)

lemma cache_text_edges: "cache_text = cache_file_text [(''K00001'', ''map00010'')]"
  by (simp add: cache_text_def cache_file_text_def edge_line_def)

lemma plain_example_cells: "plain_cell ''K00001''" "plain_cell ''map00010''"
  by code_simp+

text \<open>
  Claim C1. When the cache file exists, \<open>fetch_ko_pathway_mapping\<close> leaves the world as it
  was, so the trace gains no request, whatever codes were asked for and whatever the file
  holds. When the file stores the edges \<open>edges\<close> (a header line and one line per edge, of
  plain cells), the table returned has exactly those edges as its rows, in the order of
  the file.
\<close>

theorem cache_hit_returns_stored_edges:
  assumes "p \<noteq> []" and "files w p = Some content"
  shows "snd (fetch_ko_pathway_mapping w ko_list (Some p)) = w \<and>
         (\<forall>edges. content = cache_file_text edges \<and>
                   (\<forall>e \<in> set edges. plain_cell (fst e) \<and> plain_cell (snd e))
            \<longrightarrow> fst (fetch_ko_pathway_mapping w ko_list (Some p)) = Inr (edge_frame edges))"
  using fetch_cached [OF assms, of ko_list] read_cache_file_text by auto

theorem cache_hit_returns_stored_edges_witness:
  "files cached_world ''kegg_ko_pathway_map.tsv'' =
     Some (cache_file_text [(''K00001'', ''map00010'')]) \<and>
   plain_cell ''K00001'' \<and> plain_cell ''map00010'' \<and>
   fetch_ko_pathway_mapping cached_world [''K00001''] (Some ''kegg_ko_pathway_map.tsv'') =
     (Inr \<lparr>columns = [''ko'', ''pathway_id''], rows = [[''K00001'', ''map00010'']]\<rparr>,
      cached_world) \<and>
   trace cached_world = []"
proof -
  let ?edges = "[(''K00001'', ''map00010'')]"
  have h1: "''kegg_ko_pathway_map.tsv'' \<noteq> []" by simp
  have h2: "files cached_world ''kegg_ko_pathway_map.tsv'' = Some (cache_file_text ?edges)"
    by (simp add: cached_world_def cache_text_edges)
  have pl: "\<forall>e \<in> set ?edges. plain_cell (fst e) \<and> plain_cell (snd e)"
    using plain_example_cells by simp
  from cache_hit_returns_stored_edges [OF h1 h2, of "[''K00001'']"] pl
  have s: "snd (fetch_ko_pathway_mapping cached_world [''K00001''] (Some ''kegg_ko_pathway_map.tsv''))
       = cached_world"
    and f: "fst (fetch_ko_pathway_mapping cached_world [''K00001''] (Some ''kegg_ko_pathway_map.tsv''))
       = Inr (edge_frame ?edges)"
    by blast+
  have e: "edge_frame ?edges =
     \<lparr>columns = [''ko'', ''pathway_id''], rows = [[''K00001'', ''map00010'']]\<rparr>"
    by (simp add: edge_frame_def)
  have "fetch_ko_pathway_mapping cached_world [''K00001''] (Some ''kegg_ko_pathway_map.tsv'') =
     (Inr \<lparr>columns = [''ko'', ''pathway_id''], rows = [[''K00001'', ''map00010'']]\<rparr>, cached_world)"
    using s f e by (metis prod.collapse)
  moreover have "trace cached_world = []" by (simp add: cached_world_def)
  ultimately show ?thesis using h2 plain_example_cells by blast
qed

subsection \<open>Normalisation\<close>

lemma startswith_decomp: "startswith p s \<Longrightarrow> s = p @ drop (length p) s"
  by (induction p s rule: startswith.induct) auto

lemma str_remove_without_k: "CHR ''k'' \<notin> set s \<Longrightarrow> str_remove ''ko:'' s = s"
  by (induction s) auto

lemma str_remove_prefix: "str_remove ''ko:'' (''ko:'' @ s) = str_remove ''ko:'' s"
  by simp

lemma isdigit_not_k: "isdigit c \<Longrightarrow> c \<noteq> CHR ''k''"
  by (auto simp: isdigit_def)

lemma match_K5_without_k:
  assumes "match_K5 s" shows "CHR ''k'' \<notin> set s"
proof -
  from assms obtain ds where s: "s = CHR ''K'' # ds"
    and dig: "list_all isdigit (take 5 ds)" and tl: "length ds = 5 \<or> drop 5 ds = [LF]"
    by (auto simp: match_K5_def re_match_d5_def split: list.splits)
  have "set ds = set (take 5 ds) \<union> set (drop 5 ds)"
    by (metis append_take_drop_id set_append)
  moreover have "CHR ''k'' \<notin> set (take 5 ds)"
    using dig isdigit_not_k by (auto simp: list_all_iff)
  moreover have "CHR ''k'' \<notin> set (drop 5 ds)"
    using tl by (auto simp: LF_def)
  ultimately show ?thesis using s by simp
qed

lemma match_K5_spec: "match_K5 s \<Longrightarrow> match_spec s"
  by (auto simp: match_K5_def match_spec_def re_match_d5_def isupper_AZ_def split: list.splits)

lemma str_remove_strip_prefix:
  assumes "match_K5 (strip_prefix ''ko:'' piece)"
  shows "str_remove ''ko:'' piece = strip_prefix ''ko:'' piece"
proof (cases "startswith ''ko:'' piece")
  case True
  define rest where "rest = drop (length ''ko:'') piece"
  have "piece = ''ko:'' @ rest"
    unfolding rest_def by (rule startswith_decomp [OF True])
  then have "str_remove ''ko:'' piece = str_remove ''ko:'' rest"
    using str_remove_prefix by metis
  moreover have "strip_prefix ''ko:'' piece = rest"
    using True unfolding rest_def strip_prefix_def by (rule if_P)
  ultimately show ?thesis using assms match_K5_without_k str_remove_without_k by metis
next
  case False
  then have "strip_prefix ''ko:'' piece = piece" by (simp add: strip_prefix_def)
  then show ?thesis using assms match_K5_without_k str_remove_without_k by metis
qed

lemma in_explode_ko:
  "(g, k) \<in> set (explode_ko rs) \<longleftrightarrow>
     (\<exists>raw. (g, Some raw) \<in> set rs \<and> raw \<noteq> ''-'' \<and> k \<in> set (split_on CHR '','' raw))"
  by (auto simp: explode_ko_def split: option.splits if_splits)

lemma in_preprocess_rows:
  "(g, k) \<in> set (preprocess_rows rs) \<longleftrightarrow>
     (\<exists>raw piece. (g, Some raw) \<in> set rs \<and> raw \<noteq> ''-'' \<and> piece \<in> set (split_on CHR '','' raw) \<and>
        k = str_remove ''ko:'' piece \<and> match_K5 k)"
proof
  assume "(g, k) \<in> set (preprocess_rows rs)"
  then obtain k0 where "(g, k0) \<in> set (explode_ko rs)" "k = str_remove ''ko:'' k0" "match_K5 k"
    by (auto simp: preprocess_rows_def)
  then show "\<exists>raw piece. (g, Some raw) \<in> set rs \<and> raw \<noteq> ''-'' \<and>
        piece \<in> set (split_on CHR '','' raw) \<and> k = str_remove ''ko:'' piece \<and> match_K5 k"
    unfolding in_explode_ko by blast
next
  assume "\<exists>raw piece. (g, Some raw) \<in> set rs \<and> raw \<noteq> ''-'' \<and>
        piece \<in> set (split_on CHR '','' raw) \<and> k = str_remove ''ko:'' piece \<and> match_K5 k"
  then obtain piece where "(g, piece) \<in> set (explode_ko rs)" "k = str_remove ''ko:'' piece" "match_K5 k"
    unfolding in_explode_ko by blast
  then show "(g, k) \<in> set (preprocess_rows rs)"
    by (force simp: preprocess_rows_def)
qed

text \<open>
  Claim C2, as the code has it. Every code in the output of \<open>preprocess_rows\<close> matches
  \<^verbatim>\<open>^K\d{5}$\<close>, hence the specification's \<^verbatim>\<open>^[A-Z]\d{5}$\<close>; and no piece
  of a present, non-placeholder code field is dropped if, once its \<^verbatim>\<open>ko:\<close> prefix is
  stripped, it matches \<^verbatim>\<open>^K\d{5}$\<close>.
\<close>

theorem preprocess_rows_codes:
  "(\<forall>(g, k) \<in> set (preprocess_rows rs). match_K5 k \<and> match_spec k) \<and>
   (\<forall>g raw piece.
      (g, Some raw) \<in> set rs \<and> raw \<noteq> ''-'' \<and> piece \<in> set (split_on CHR '','' raw) \<and>
      match_K5 (strip_prefix ''ko:'' piece)
      \<longrightarrow> (g, strip_prefix ''ko:'' piece) \<in> set (preprocess_rows rs))"
proof (intro conjI allI impI)
  show "\<forall>(g, k) \<in> set (preprocess_rows rs). match_K5 k \<and> match_spec k"
    using match_K5_spec by (auto simp: preprocess_rows_def)
next
  fix g raw piece
  assume a: "(g, Some raw) \<in> set rs \<and> raw \<noteq> ''-'' \<and> piece \<in> set (split_on CHR '','' raw) \<and>
      match_K5 (strip_prefix ''ko:'' piece)"
  then have "str_remove ''ko:'' piece = strip_prefix ''ko:'' piece"
    using str_remove_strip_prefix by blast
  with a show "(g, strip_prefix ''ko:'' piece) \<in> set (preprocess_rows rs)"
    unfolding in_preprocess_rows by metis
qed


theorem preprocess_rows_codes_witness:
  "preprocess_rows [(''g1'', Some ''ko:K00001,C00001'')] = [(''g1'', ''K00001'')] \<and>
   match_K5 ''K00001'' \<and> match_spec ''K00001'' \<and>
   (''g1'', strip_prefix ''ko:'' ''ko:K00001'') \<in> set (preprocess_rows [(''g1'', Some ''ko:K00001,C00001'')])"
proof -
  let ?rs = "[(''g1'', Some ''ko:K00001,C00001'')]"
  have e: "preprocess_rows ?rs = [(''g1'', ''K00001'')]" by code_simp
  have p: "(''g1'', Some ''ko:K00001,C00001'') \<in> set ?rs \<and> ''ko:K00001,C00001'' \<noteq> ''-'' \<and>
      ''ko:K00001'' \<in> set (split_on CHR '','' ''ko:K00001,C00001'') \<and>
      match_K5 (strip_prefix ''ko:'' ''ko:K00001'')" by code_simp
  from preprocess_rows_codes [of ?rs] p
  have c: "(''g1'', strip_prefix ''ko:'' ''ko:K00001'') \<in> set (preprocess_rows ?rs)" by blast
  from preprocess_rows_codes [of ?rs] e
  have m: "match_K5 ''K00001'' \<and> match_spec ''K00001''" by simp
  show ?thesis using e c m by blast
qed

text \<open>
  Claim C2 as stated fails: the code C00001 matches \<^verbatim>\<open>^[A-Z]\d{5}$\<close>, its row has a
  present code field that is not the placeholder, and normalisation drops it.
\<close>

theorem compound_code_dropped:
  "preprocess_input compound_world ''genes.tsv'' = Inr [] \<and> match_spec ''C00001''"
  by code_simp

subsection \<open>The table that \<open>preprocess_input\<close> returns\<close>

text \<open>
  Whenever \<open>preprocess_input\<close> returns a table, it is \<open>preprocess_rows\<close> of the rows read
  from the input file, so the properties of \<open>preprocess_rows\<close> are those of its output.
\<close>

lemma preprocess_input_rows:
  assumes "preprocess_input w input_file = Inr out"
  shows "\<exists>content rs. files w input_file = Some content \<and> read_input content = Inr rs \<and>
           out = preprocess_rows rs"
  using assms by (auto simp: preprocess_input_def split: option.splits sum.splits if_splits)

lemma preprocess_input_codes:
  assumes "preprocess_input w input_file = Inr out" and "(g, k) \<in> set out"
  shows "match_K5 k \<and> match_spec k"
proof -
  obtain rs where "out = preprocess_rows rs"
    using preprocess_input_rows [OF assms(1)] by blast
  then have "(g, k) \<in> set (preprocess_rows rs)" using assms(2) by simp
  then have "match_K5 k" unfolding in_preprocess_rows by blast
  then show ?thesis using match_K5_spec by simp
qed

subsection \<open>Failures of the description lookup, the cache and the chart\<close>

lemma strip_bare: "strip ''map00010'' = ''map00010''"
  by code_simp

lemma split_bare: "split_on TAB ''map00010'' = [''map00010'']"
  by code_simp

text \<open>
  Claim C4 at a malformed line: the service answers 200 with the text \<^verbatim>\<open>map00010\<close>,
  which has no second tab-separated field. \<open>fetch_pathway_descriptions\<close> raises
  \<^verbatim>\<open>IndexError\<close>; no mapping is returned.
\<close>

theorem descriptions_malformed_line_raises:
  "fst (fetch_pathway_descriptions bare_world [''map00010'']) = Inl IndexError"
  by (simp add: fetch_pathway_descriptions_def bare_world_def bare_line_def requests_get_def
        strip_bare split_bare)

text \<open>
  Claim C6 at the empty edge set: a live pass that finds no edge returns a frame without
  columns and writes a cache file that holds one empty line; the next run finds the file
  and \<^verbatim>\<open>read_csv\<close> raises \<^verbatim>\<open>EmptyDataError\<close>.
\<close>

theorem empty_cache_roundtrip_fails:
  "fst (fetch_ko_pathway_mapping fresh_world [''K99999''] (Some ''cache.tsv'')) =
     Inr \<lparr>columns = [], rows = []\<rparr> \<and>
   files (snd (fetch_ko_pathway_mapping fresh_world [''K99999''] (Some ''cache.tsv''))) ''cache.tsv'' =
     Some [LF] \<and>
   fst (fetch_ko_pathway_mapping
          (snd (fetch_ko_pathway_mapping fresh_world [''K99999''] (Some ''cache.tsv'')))
          [''K99999''] (Some ''cache.tsv'')) = Inl EmptyDataError"
  by code_simp

text \<open>
  Claim C7 with the chart requested: the exclusion removes the only group, the summary file
  is written with its header alone, and \<open>plot_circular_barplot\<close> then raises
  \<^verbatim>\<open>IndexError\<close> on the empty table.
\<close>

theorem empty_summary_plot_raises:
  "fst (main by_count_desc glycolysis_args glycolysis_world) = Inl IndexError \<and>
   files (snd (main by_count_desc glycolysis_args glycolysis_world)) ''kegg_pathway_summary.tsv'' =
     Some (''pathway_id'' @ [TAB] @ ''pathway_description'' @ [TAB] @ ''KO_count'' @ [LF])"
  by code_simp

text \<open>Without the chart the same run ends normally.\<close>

lemma empty_summary_without_plot:
  "fst (main by_count_desc (glycolysis_args\<lparr>plot := False\<rparr>) glycolysis_world) = Inr ()"
  by code_simp

subsection \<open>The enricher when every answer has its second field\<close>

text \<open>
  When every answer that is 200 and non-empty has a second tab-separated field, the
  enricher returns a mapping with every input key present; an answer that is not 200 or is
  empty gives "Unknown".
\<close>

lemma descriptions_loop_total:
  assumes "\<And>n u. \<exists>r. server w n u = Some r \<and>
             (status_code r = 200 \<and> strip (resp_text r) \<noteq> []
              \<longrightarrow> 2 \<le> length (split_on TAB (strip (resp_text r))))"
  shows "\<exists>m' w'. descriptions_loop w pws m = (Inr m', w') \<and> dom m' = dom m \<union> set pws"
  using assms
proof (induction pws arbitrary: w m)
  case Nil
  then show ?case by simp
next
  case (Cons pw pws)
  obtain r where r: "server w (length (filter is_get (trace w))) (list_url pw) = Some r"
    and ok: "status_code r = 200 \<and> strip (resp_text r) \<noteq> []
              \<longrightarrow> 2 \<le> length (split_on TAB (strip (resp_text r)))"
    using Cons.prems by blast
  define w0 where "w0 = w\<lparr>trace := trace w @ [Get (list_url pw)]\<rparr>"
  define w1 where "w1 = sleep w0 200"
  have g: "requests_get w (list_url pw) = (Some r, w0)"
    using r by (simp add: requests_get_def w0_def)
  have sv: "server w1 = server w"
    by (simp add: w1_def w0_def sleep_def)
  have s: "\<And>n u. \<exists>r. server w1 n u = Some r \<and>
             (status_code r = 200 \<and> strip (resp_text r) \<noteq> []
              \<longrightarrow> 2 \<le> length (split_on TAB (strip (resp_text r))))"
    unfolding sv using Cons.prems by blast
  show ?case
  proof (cases "status_code r = 200 \<and> strip (resp_text r) \<noteq> []")
    case True
    then obtain a desc rest where p: "split_on TAB (strip (resp_text r)) = a # desc # rest"
      using ok by (cases "split_on TAB (strip (resp_text r))" rule: remdups_adj.cases) auto
    have "descriptions_loop w (pw # pws) m = descriptions_loop w1 pws (m(pw \<mapsto> desc))"
      using g True p by (simp add: w1_def)
    moreover obtain m' w' where "descriptions_loop w1 pws (m(pw \<mapsto> desc)) = (Inr m', w')"
      and "dom m' = dom (m(pw \<mapsto> desc)) \<union> set pws"
      using Cons.IH [OF s, of "m(pw \<mapsto> desc)"] by blast
    moreover have "dom (m(pw \<mapsto> desc)) \<union> set pws = dom m \<union> set (pw # pws)"
      by auto
    ultimately show ?thesis by metis
  next
    case False
    have "descriptions_loop w (pw # pws) m = descriptions_loop w1 pws (m(pw \<mapsto> ''Unknown''))"
      using g False by (auto simp: w1_def)
    moreover obtain m' w' where "descriptions_loop w1 pws (m(pw \<mapsto> ''Unknown'')) = (Inr m', w')"
      and "dom m' = dom (m(pw \<mapsto> ''Unknown'')) \<union> set pws"
      using Cons.IH [OF s, of "m(pw \<mapsto> ''Unknown'')"] by blast
    moreover have "dom (m(pw \<mapsto> ''Unknown'')) \<union> set pws = dom m \<union> set (pw # pws)"
      by auto
    ultimately show ?thesis by metis
  qed
qed

lemma descriptions_unknown_on_failure:
  assumes "server w (length (filter is_get (trace w))) (list_url pw) = Some r"
    and "\<not> (status_code r = 200 \<and> strip (resp_text r) \<noteq> [])"
  shows "fetch_pathway_descriptions w [pw] =
     (Inr [pw \<mapsto> ''Unknown''], sleep (snd (requests_get w (list_url pw))) 200)"
  using assms by (auto simp: fetch_pathway_descriptions_def requests_get_def)

subsection \<open>Deduplication by description\<close>


lemma drop_duplicates_from_fresh:
  "r \<in> set (drop_duplicates_from seen xs) \<Longrightarrow> pathway_description r \<notin> set seen \<and> r \<in> set xs"
proof (induction xs arbitrary: seen)
  case Nil
  then show ?case by simp
next
  case (Cons x xs)
  show ?case
  proof (cases "pathway_description x \<in> set seen")
    case True
    then show ?thesis using Cons by simp
  next
    case False
    then have "r = x \<or> r \<in> set (drop_duplicates_from (pathway_description x # seen) xs)"
      using Cons.prems by simp
    then show ?thesis
    proof
      assume "r = x"
      then show ?thesis using False by simp
    next
      assume "r \<in> set (drop_duplicates_from (pathway_description x # seen) xs)"
      from Cons.IH [OF this] show ?thesis by simp
    qed
  qed
qed


lemma filtering_is_filter:
  "filtering w ex df = Inr out \<Longrightarrow> \<exists>P. out = filter P df"
  by (auto simp: filtering_def exclude_rows_def Let_def split: option.splits if_splits
      intro: exI [of _ "\<lambda>r. True"])

lemma files_plot: "files (snd (plot_circular_barplot w df f)) = files w"
  by (simp add: plot_circular_barplot_def Let_def split: list.splits)

lemma main_summary_file:
  assumes "preprocess_input w (input a) = Inr ko_df"
    and "fetch_ko_pathway_mapping w (unique (map snd ko_df)) (Some (cache a)) = (Inr pathway_df, w1)"
    and "column pathway_df ''pathway_id'' = Inr pids"
    and "fetch_pathway_descriptions w1 (unique pids) = (Inr dm, w2)"
    and "filtering w2 (exclude a) (groupby_size (group_keys pids dm)) = Inr filtered"
  shows "files (snd (main sort_values a w)) (output_file a) =
           Some (to_csv (summary_frame (sort_values (drop_duplicates filtered))))"
  using assms by (simp add: main_def Let_def files_plot)




lemma column_edge_frame: "column (edge_frame edges) ''pathway_id'' = Inr (map snd edges)"
  by (simp add: column_def edge_frame_def)









subsection \<open>Exclusion filtering\<close>

lemma bar_not_meta: "CHR ''|'' \<notin> set regex_meta"
  by (simp add: regex_meta_def)

lemma exclude_rows_empty_table: "exclude_rows ts [] = Inl AttributeError"
  by (simp add: exclude_rows_def)

lemma exclude_rows_literal:
  assumes "ts \<noteq> []"
    and "\<forall>t \<in> set ts. \<forall>c \<in> set t. c \<notin> set regex_meta \<and> c \<noteq> CHR ''|''"
    and "df \<noteq> []"
  shows "exclude_rows ts df =
     Inr (filter (\<lambda>r. \<not> (\<exists>t \<in> set ts. contains t (lower (pathway_description r)))) df)"
proof -
  have "\<forall>c \<in> set (join ''|'' ts). c \<notin> set regex_meta"
    using set_join [of "''|''" ts] assms(2) bar_not_meta by auto
  then have nometa: "\<not> list_ex (\<lambda>c. c \<in> set regex_meta) (join ''|'' ts)"
    by (simp add: list_ex_iff)
  have "split_on CHR ''|'' (join ''|'' ts) = ts"
    using split_join [OF assms(1), of "CHR ''|''"] assms(2) by simp
  then have "re_search (join ''|'' ts) s = (\<exists>t \<in> set ts. contains t s)" for s
    by (simp add: re_search_def list_ex_iff)
  then show ?thesis
    using nometa assms(3) by (simp add: exclude_rows_def)
qed

text \<open>
  Claim C5, as the code has it. The terms are stripped and lower-cased, joined with bars and
  searched as one regular expression in the lower-cased description. For a non-empty list of
  terms that hold no regular-expression metacharacter, and a summary table with at least
  one group, a group is dropped exactly when its lower-cased description contains one of
  the terms as a literal substring. (On the table without groups line 153 raises
  \<^verbatim>\<open>AttributeError\<close>, see \<open>exclude_rows_empty_table\<close>.)
\<close>

theorem exclusion_literal_terms:
  assumes "f \<noteq> []" and "files w f = Some txt" and "read_terms txt \<noteq> []"
    and "\<forall>t \<in> set (read_terms txt). \<forall>c \<in> set t. c \<notin> set regex_meta \<and> c \<noteq> CHR ''|''"
    and "summary_df \<noteq> []"
  shows "filtering w (Some f) summary_df =
     Inr (filter (\<lambda>r. \<not> (\<exists>t \<in> set (read_terms txt). contains t (lower (pathway_description r))))
            summary_df)"
  using assms(1,2) exclude_rows_literal [OF assms(3,4,5)] by (simp add: filtering_def)

theorem exclusion_literal_terms_witness:
  "''exclude.txt'' \<noteq> [] \<and>
   files metabolic_world ''exclude.txt'' = Some (''metabolic'' @ [LF]) \<and>
   read_terms (''metabolic'' @ [LF]) = [''metabolic''] \<and>
   list_all (list_all (\<lambda>c. c \<notin> set regex_meta \<and> c \<noteq> CHR ''|''))
     (read_terms (''metabolic'' @ [LF])) \<and>
   two_rows \<noteq> [] \<and>
   filtering metabolic_world (Some ''exclude.txt'') two_rows =
     Inr [\<lparr>pathway_id = ''map00010'', pathway_description = ''Glycolysis'', KO_count = 1\<rparr>]"
proof -
  let ?txt = "''metabolic'' @ [LF]"
  have h1: "''exclude.txt'' \<noteq> []" by simp
  have h2: "files metabolic_world ''exclude.txt'' = Some ?txt"
    by (simp add: metabolic_world_def)
  have t: "read_terms ?txt = [''metabolic'']" by code_simp
  have h3: "read_terms ?txt \<noteq> []" unfolding t by simp
  have h4: "\<forall>t \<in> set (read_terms ?txt). \<forall>c \<in> set t. c \<notin> set regex_meta \<and> c \<noteq> CHR ''|''"
    by code_simp
  have h5: "two_rows \<noteq> []" by (simp add: two_rows_def)
  have e: "filter (\<lambda>r. \<not> (\<exists>t \<in> set (read_terms ?txt). contains t (lower (pathway_description r))))
             two_rows
           = [\<lparr>pathway_id = ''map00010'', pathway_description = ''Glycolysis'', KO_count = 1\<rparr>]"
    by code_simp
  have "filtering metabolic_world (Some ''exclude.txt'') two_rows =
     Inr [\<lparr>pathway_id = ''map00010'', pathway_description = ''Glycolysis'', KO_count = 1\<rparr>]"
    using exclusion_literal_terms [OF h1 h2 h3 h4 h5] unfolding e .
  moreover have "list_all (list_all (\<lambda>c. c \<notin> set regex_meta \<and> c \<noteq> CHR ''|''))
     (read_terms ?txt)"
    using h4 by (simp add: list_all_iff)
  ultimately show ?thesis using h1 h2 t h5 by blast
qed

text \<open>
  Claim C5 as stated fails for a term with a special character: the term \<^verbatim>\<open>TCA|Krebs\<close>
  is read as two alternatives, so the group described as "Citrate cycle (TCA cycle)" is
  dropped although its description does not contain the term.
\<close>

theorem bar_term_is_alternation:
  "read_terms (''TCA|Krebs'' @ [LF]) = [''tca|krebs''] \<and>
   filtering bar_world (Some ''exclude.txt'') [citrate_row] = Inr [] \<and>
   \<not> contains ''tca|krebs'' (lower (pathway_description citrate_row))"
  by code_simp

subsection \<open>Rate limiting\<close>

lemma not_get_is_sleep: "\<not> is_get e \<Longrightarrow> \<exists>ms. e = Sleep ms"
  by (cases e) auto

lemma paced_snoc_get: "paced tr \<Longrightarrow> idle tr \<Longrightarrow> paced (tr @ [Get u])"
  by (induction tr rule: paced.induct)
    (auto simp: idle_def split: if_splits dest!: not_get_is_sleep)

lemma paced_snoc_get_sleep: "paced tr \<Longrightarrow> idle tr \<Longrightarrow> paced (tr @ [Get u, Sleep 200])"
  by (induction tr rule: paced.induct)
    (auto simp: idle_def split: if_splits dest!: not_get_is_sleep)

lemma idle_snoc_sleep: "idle (tr @ [Get u, Sleep ms])"
  by (simp add: idle_def)

lemma trace_get: "trace (snd (requests_get w url)) = trace w @ [Get url]"
  by (simp add: requests_get_def)

lemma trace_get_sleep: "trace (sleep (snd (requests_get w url)) ms) = trace w @ [Get url, Sleep ms]"
  by (simp add: requests_get_def sleep_def)

lemma fetch_loop_paced:
  assumes "paced (trace w)" and "idle (trace w)"
  shows "paced (trace (snd (fetch_loop w kos records))) \<and>
         (isl (fst (fetch_loop w kos records)) \<or> idle (trace (snd (fetch_loop w kos records))))"
  using assms
proof (induction kos arbitrary: w records)
  case Nil
  then show ?case by simp
next
  case (Cons ko kos)
  let ?url = "link_url ko"
  obtain r w1 where g: "requests_get w ?url = (r, w1)" by (cases "requests_get w ?url")
  then have w1: "w1 = snd (requests_get w ?url)" by simp
  have pg: "paced (trace w1)"
    unfolding w1 trace_get by (rule paced_snoc_get [OF Cons.prems])
  show ?case
  proof (cases r)
    case None
    then show ?thesis using g pg by simp
  next
    case (Some resp)
    have p: "paced (trace (sleep w1 200))"
      unfolding w1 trace_get_sleep by (rule paced_snoc_get_sleep [OF Cons.prems])
    have i: "idle (trace (sleep w1 200))"
      unfolding w1 trace_get_sleep by (rule idle_snoc_sleep)
    show ?thesis
      using g Some Cons.IH [OF p i] by simp
  qed
qed

lemma descriptions_loop_paced:
  assumes "paced (trace w)" and "idle (trace w)"
  shows "paced (trace (snd (descriptions_loop w pws m))) \<and>
         (isl (fst (descriptions_loop w pws m)) \<or> idle (trace (snd (descriptions_loop w pws m))))"
  using assms
proof (induction pws arbitrary: w m)
  case Nil
  then show ?case by simp
next
  case (Cons pw pws)
  let ?url = "list_url pw"
  obtain r w1 where g: "requests_get w ?url = (r, w1)" by (cases "requests_get w ?url")
  then have w1: "w1 = snd (requests_get w ?url)" by simp
  have pg: "paced (trace w1)"
    unfolding w1 trace_get by (rule paced_snoc_get [OF Cons.prems])
  show ?case
  proof (cases r)
    case None
    then show ?thesis using g pg by simp
  next
    case (Some resp)
    have p: "paced (trace (sleep w1 200))"
      unfolding w1 trace_get_sleep by (rule paced_snoc_get_sleep [OF Cons.prems])
    have i: "idle (trace (sleep w1 200))"
      unfolding w1 trace_get_sleep by (rule idle_snoc_sleep)
    show ?thesis
      using g Some pg Cons.IH [OF p i] by (simp split: list.splits)
  qed
qed

lemma fetch_ko_pathway_mapping_paced:
  assumes "paced (trace w)" and "idle (trace w)"
  shows "paced (trace (snd (fetch_ko_pathway_mapping w kos c))) \<and>
         (isl (fst (fetch_ko_pathway_mapping w kos c)) \<or>
          idle (trace (snd (fetch_ko_pathway_mapping w kos c))))"
proof (cases "cached w c")
  case (Some content)
  then show ?thesis using assms by (simp add: fetch_ko_pathway_mapping_def)
next
  case None
  obtain r w1 where l: "fetch_loop w kos [] = (r, w1)" by (cases "fetch_loop w kos []")
  have "paced (trace w1) \<and> (isl r \<or> idle (trace w1))"
    using fetch_loop_paced [OF assms, of kos "[]"] l by simp
  then show ?thesis
    using None l
    by (cases r) (auto simp: fetch_ko_pathway_mapping_def Let_def split: option.splits)
qed

lemma fetch_pathway_descriptions_paced:
  assumes "paced (trace w)" and "idle (trace w)"
  shows "paced (trace (snd (fetch_pathway_descriptions w pws)))"
  using descriptions_loop_paced [OF assms] by (simp add: fetch_pathway_descriptions_def)

lemma trace_plot: "trace (snd (plot_circular_barplot w df f)) = trace w"
  by (simp add: plot_circular_barplot_def Let_def split: list.splits)

lemma main_paced:
  assumes "paced (trace w)" and "idle (trace w)"
  shows "paced (trace (snd (main sort_values a w)))"
proof (cases "preprocess_input w (input a)")
  case (Inl e)
  then show ?thesis using assms by (simp add: main_def)
next
  case (Inr ko_df)
  obtain r w1 where f: "fetch_ko_pathway_mapping w (unique (map snd ko_df)) (Some (cache a)) = (r, w1)"
    by (cases "fetch_ko_pathway_mapping w (unique (map snd ko_df)) (Some (cache a))")
  have p1: "paced (trace w1) \<and> (isl r \<or> idle (trace w1))"
    using fetch_ko_pathway_mapping_paced [OF assms, of "unique (map snd ko_df)" "Some (cache a)"] f
    by simp
  show ?thesis
  proof (cases r)
    case (Inl e)
    then show ?thesis using Inr f p1 by (simp add: main_def)
  next
    case df: (Inr pathway_df)
    then have i1: "idle (trace w1)" using p1 by simp
    show ?thesis
    proof (cases "column pathway_df ''pathway_id''")
      case (Inl e)
      then show ?thesis using Inr f df p1 by (simp add: main_def)
    next
      case pids: (Inr pids)
      obtain d w2 where g: "fetch_pathway_descriptions w1 (unique pids) = (d, w2)"
        by (cases "fetch_pathway_descriptions w1 (unique pids)")
      have p2: "paced (trace w2)"
        using fetch_pathway_descriptions_paced [OF conjunct1 [OF p1] i1, of "unique pids"] g by simp
      show ?thesis
        using Inr f df pids g p2
        by (cases d) (auto simp: main_def Let_def trace_plot split: sum.splits)
    qed
  qed
qed

text \<open>
  Claim C8. Started from a paced, idle trace (the empty trace of a fresh run), the resolver,
  the enricher and the whole of \<open>main\<close> leave a paced trace: a sleep of 200 ms follows
  each request before the next one is sent, whatever the answer to the request was. The
  trace records the call of \<^verbatim>\<open>sleep(0.2)\<close>, not the time that passes.
\<close>

theorem requests_are_paced:
  assumes "paced (trace w)" and "idle (trace w)"
  shows "paced (trace (snd (fetch_ko_pathway_mapping w ko_list cache_file))) \<and>
         paced (trace (snd (fetch_pathway_descriptions w pathway_ids))) \<and>
         paced (trace (snd (main sort_values a w)))"
  using fetch_ko_pathway_mapping_paced [OF assms] fetch_pathway_descriptions_paced [OF assms]
    main_paced [OF assms] by blast


lemma failed_lookups_trace:
  "trace (snd (fetch_ko_pathway_mapping fresh_world [''K99999'', ''K99998''] None)) =
     [Get (link_url ''K99999''), Sleep 200, Get (link_url ''K99998''), Sleep 200]"
  by code_simp

theorem requests_are_paced_witness:
  "paced (trace glycolysis_world) \<and> idle (trace glycolysis_world) \<and>
   paced (trace (snd (fetch_ko_pathway_mapping glycolysis_world [''K00001''] None))) \<and>
   paced (trace (snd (fetch_pathway_descriptions glycolysis_world [''map00010'']))) \<and>
   paced (trace (snd (main by_count_desc glycolysis_args glycolysis_world))) \<and>
   trace (snd (main by_count_desc glycolysis_args glycolysis_world)) =
     [Get (link_url ''K00001''), Sleep 200, Get (list_url ''map00010''), Sleep 200]"
proof -
  have h1: "paced (trace glycolysis_world)" by (simp add: glycolysis_world_def)
  have h2: "idle (trace glycolysis_world)" by (simp add: glycolysis_world_def idle_def)
  have t: "trace (snd (main by_count_desc glycolysis_args glycolysis_world)) =
     [Get (link_url ''K00001''), Sleep 200, Get (list_url ''map00010''), Sleep 200]"
    by code_simp
  show ?thesis
    using h1 h2 t
      requests_are_paced [OF h1 h2, of "[''K00001'']" None "[''map00010'']" by_count_desc
        glycolysis_args]
    by blast
qed

subsection \<open>Cached edges beyond the requested codes\<close>

lemma group_keys_Cons:
  "group_keys (p # ps) m =
     (case m p of None \<Rightarrow> group_keys ps m | Some d \<Rightarrow> (p, d) # group_keys ps m)"
  by (simp add: group_keys_def List.map_filter_simps split: option.splits)

lemma count_group_keys:
  "m p = Some d \<Longrightarrow> count_list (group_keys ps m) (p, d) = count_list ps p"
  by (induction ps) (auto simp: group_keys_Cons group_keys_def List.map_filter_simps split: option.splits)

lemma in_group_keys: "(p, d) \<in> set (group_keys ps m) \<Longrightarrow> m p = Some d"
  by (auto simp: group_keys_def List.map_filter_def)

lemma groupby_size_counts:
  assumes "r \<in> set (groupby_size (group_keys pids m))"
  shows "KO_count r = count_list pids (pathway_id r)"
proof -
  from assms obtain k where k: "k \<in> set (group_keys pids m)"
    and r: "r = \<lparr>pathway_id = fst k, pathway_description = snd k,
                  KO_count = count_list (group_keys pids m) k\<rparr>"
    by (auto simp: groupby_size_def)
  have "m (fst k) = Some (snd k)" using k in_group_keys [of "fst k" "snd k"] by simp
  then have "count_list (group_keys pids m) (fst k, snd k) = count_list pids (fst k)"
    by (rule count_group_keys)
  then show ?thesis using r by simp
qed

lemma descriptions_loop_dom:
  "descriptions_loop w pws m = (Inr m', w') \<Longrightarrow> dom m' = dom m \<union> set pws"
proof (induction pws arbitrary: w m)
  case Nil
  then show ?case by simp
next
  case (Cons pw pws)
  obtain r w1 where g: "requests_get w (list_url pw) = (r, w1)"
    by (cases "requests_get w (list_url pw)")
  show ?case
  proof (cases r)
    case None
    then show ?thesis using Cons.prems g by simp
  next
    case (Some resp)
    show ?thesis
    proof (cases "status_code resp = 200 \<and> strip (resp_text resp) \<noteq> []")
      case True
      then obtain x desc rest where p: "split_on TAB (strip (resp_text resp)) = x # desc # rest"
        using Cons.prems g Some by (auto split: list.splits)
      then have "descriptions_loop (sleep w1 200) pws (m(pw \<mapsto> desc)) = (Inr m', w')"
        using Cons.prems g Some True by simp
      from Cons.IH [OF this] show ?thesis by auto
    next
      case False
      then have "descriptions_loop (sleep w1 200) pws (m(pw \<mapsto> ''Unknown'')) = (Inr m', w')"
        using Cons.prems g Some by auto
      from Cons.IH [OF this] show ?thesis by auto
    qed
  qed
qed

lemma fetch_pathway_descriptions_dom:
  "fetch_pathway_descriptions w pws = (Inr dm, w') \<Longrightarrow> dom dm = set pws"
  using descriptions_loop_dom [of w pws Map.empty dm w']
  by (simp add: fetch_pathway_descriptions_def)

lemma set_unique: "set (unique xs) = set xs"
  by (simp add: unique_def)

lemma group_keys_member:
  "p \<in> set pids \<Longrightarrow> dm p = Some d \<Longrightarrow> (p, d) \<in> set (group_keys pids dm)"
  by (force simp: group_keys_def List.map_filter_def)

lemma groupby_size_member:
  "k \<in> set keys \<Longrightarrow>
   \<lparr>pathway_id = fst k, pathway_description = snd k, KO_count = count_list keys k\<rparr>
     \<in> set (groupby_size keys)"
  by (auto simp: groupby_size_def image_iff intro!: bexI [of _ k])

lemma edge_has_group:
  assumes "fetch_pathway_descriptions w (unique pids) = (Inr dm, w')" and "p \<in> set pids"
  shows "\<exists>d. dm p = Some d \<and>
           \<lparr>pathway_id = p, pathway_description = d, KO_count = count_list pids p\<rparr>
             \<in> set (groupby_size (group_keys pids dm))"
proof -
  have "p \<in> dom dm"
    using fetch_pathway_descriptions_dom [OF assms(1)] assms(2) by (simp add: set_unique)
  then obtain d where d: "dm p = Some d" by blast
  have "(p, d) \<in> set (group_keys pids dm)" using assms(2) d by (rule group_keys_member)
  from groupby_size_member [OF this]
  have "\<lparr>pathway_id = p, pathway_description = d,
         KO_count = count_list (group_keys pids dm) (p, d)\<rparr> \<in> set (groupby_size (group_keys pids dm))"
    by simp
  moreover have "count_list (group_keys pids dm) (p, d) = count_list pids p"
    using d by (rule count_group_keys)
  ultimately show ?thesis using d by auto
qed

lemma wide_cache_edges:
  "wide_cache_text = cache_file_text [(''K00001'', ''map00010''), (''K00002'', ''map00010'')]"
  by (simp add: wide_cache_text_def cache_file_text_def edge_line_def)

lemma wide_edges_plain:
  "\<forall>e \<in> set [(''K00001'', ''map00010''), (''K00002'', ''map00010'')].
     plain_cell (fst e) \<and> plain_cell (snd e)"
  by code_simp

lemma wide_input: "preprocess_input wide_cache_world ''genes.tsv'' = Inr [(''g1'', ''K00001'')]"
  by code_simp

lemma glycolysis_answer:
  "strip (''map00010'' @ [TAB] @ ''Glycolysis / Gluconeogenesis'' @ [LF]) \<noteq> []"
  "split_on TAB (strip (''map00010'' @ [TAB] @ ''Glycolysis / Gluconeogenesis'' @ [LF])) =
     [''map00010'', ''Glycolysis / Gluconeogenesis'']"
  by code_simp+

lemma kegg_list: "kegg n (list_url ''map00010'') =
  Some (Response 200 (''map00010'' @ [TAB] @ ''Glycolysis / Gluconeogenesis'' @ [LF]))"
  by (simp add: kegg_def list_url_def)

lemma wide_descriptions:
  "fetch_pathway_descriptions wide_cache_world (unique [''map00010'', ''map00010'']) =
     (Inr [''map00010'' \<mapsto> ''Glycolysis / Gluconeogenesis''],
      wide_cache_world\<lparr>trace := [Get (list_url ''map00010''), Sleep 200]\<rparr>)"
proof -
  define ans where "ans = ''map00010'' @ [TAB] @ ''Glycolysis / Gluconeogenesis'' @ [LF]"
  have s: "server wide_cache_world = kegg" by (simp add: wide_cache_world_def)
  have t: "trace wide_cache_world = []" by (simp add: wide_cache_world_def)
  have k: "kegg n (list_url ''map00010'') = Some (Response 200 ans)" for n
    unfolding ans_def by (rule kegg_list)
  have a1: "strip ans \<noteq> []"
    unfolding ans_def by (rule glycolysis_answer)
  have a2: "split_on TAB (strip ans) = [''map00010'', ''Glycolysis / Gluconeogenesis'']"
    unfolding ans_def by (rule glycolysis_answer)
  show ?thesis
    by (simp add: fetch_pathway_descriptions_def unique_def requests_get_def sleep_def
        s t k a1 a2)
qed

lemma wide_groups:
  "groupby_size (group_keys [''map00010'', ''map00010'']
      [''map00010'' \<mapsto> ''Glycolysis / Gluconeogenesis'']) =
     [\<lparr>pathway_id = ''map00010'', pathway_description = ''Glycolysis / Gluconeogenesis'',
       KO_count = 2\<rparr>]"
  by code_simp

lemma wide_summary_text:
  "to_csv (summary_frame (by_count_desc (drop_duplicates
      [\<lparr>pathway_id = ''map00010'', pathway_description = ''Glycolysis / Gluconeogenesis'',
        KO_count = 2\<rparr>]))) =
     ''pathway_id'' @ [TAB] @ ''pathway_description'' @ [TAB] @ ''KO_count'' @ [LF] @
     ''map00010'' @ [TAB] @ ''Glycolysis / Gluconeogenesis'' @ [TAB] @ ''2'' @ [LF]"
  by code_simp

text \<open>
  Claim C9, as the code has it. When the cache file exists and stores the edges \<open>edges\<close>,
  \<open>fetch_ko_pathway_mapping\<close> returns all of them for every \<open>ko_list\<close>, so also the edges
  of codes that were not asked for. In \<open>main\<close> every one of these edges has a group in
  the aggregation, and the count of that group is the number of all edges of the cache with
  that pathway identifier. The summary file holds the groups that remain after the
  exclusion filter and the deduplication by description, with those counts.
\<close>

theorem cached_edges_in_aggregation:
  assumes "cache a \<noteq> []"
    and "files w (cache a) = Some (cache_file_text edges)"
    and "\<forall>e \<in> set edges. plain_cell (fst e) \<and> plain_cell (snd e)"
    and "preprocess_input w (input a) = Inr ko_df"
    and "fetch_pathway_descriptions w (unique (map snd edges)) = (Inr dm, w2)"
    and "filtering w2 (exclude a) (groupby_size (group_keys (map snd edges) dm)) = Inr filtered"
  shows "(\<forall>ko_list. fetch_ko_pathway_mapping w ko_list (Some (cache a)) = (Inr (edge_frame edges), w)) \<and>
         (\<forall>e \<in> set edges. \<exists>d. dm (snd e) = Some d \<and>
            \<lparr>pathway_id = snd e, pathway_description = d,
             KO_count = count_list (map snd edges) (snd e)\<rparr>
              \<in> set (groupby_size (group_keys (map snd edges) dm))) \<and>
         files (snd (main sort_values a w)) (output_file a) =
           Some (to_csv (summary_frame (sort_values (drop_duplicates filtered)))) \<and>
         set (drop_duplicates filtered) \<subseteq> set (groupby_size (group_keys (map snd edges) dm))"
proof -
  have m: "fetch_ko_pathway_mapping w ko_list (Some (cache a)) = (Inr (edge_frame edges), w)"
    for ko_list
    using fetch_cached [OF assms(1,2)] read_cache_file_text [OF assms(3)] by simp
  have g: "\<forall>e \<in> set edges. \<exists>d. dm (snd e) = Some d \<and>
            \<lparr>pathway_id = snd e, pathway_description = d,
             KO_count = count_list (map snd edges) (snd e)\<rparr>
              \<in> set (groupby_size (group_keys (map snd edges) dm))"
    using edge_has_group [OF assms(5)] by simp
  have f: "files (snd (main sort_values a w)) (output_file a) =
           Some (to_csv (summary_frame (sort_values (drop_duplicates filtered))))"
    by (rule main_summary_file [OF assms(4) m column_edge_frame assms(5,6)])
  obtain P where "filtered = filter P (groupby_size (group_keys (map snd edges) dm))"
    using filtering_is_filter [OF assms(6)] by blast
  then have "set filtered \<subseteq> set (groupby_size (group_keys (map snd edges) dm))" by auto
  moreover have "set (drop_duplicates filtered) \<subseteq> set filtered"
    using drop_duplicates_from_fresh unfolding drop_duplicates_def by blast
  ultimately show ?thesis using m g f by blast
qed

theorem cached_edges_in_aggregation_witness:
  "cache plain_args \<noteq> [] \<and>
   files wide_cache_world (cache plain_args) =
     Some (cache_file_text [(''K00001'', ''map00010''), (''K00002'', ''map00010'')]) \<and>
   preprocess_input wide_cache_world (input plain_args) = Inr [(''g1'', ''K00001'')] \<and>
   fetch_ko_pathway_mapping wide_cache_world [''K00001''] (Some (cache plain_args)) =
     (Inr (edge_frame [(''K00001'', ''map00010''), (''K00002'', ''map00010'')]), wide_cache_world) \<and>
   \<lparr>pathway_id = ''map00010'', pathway_description = ''Glycolysis / Gluconeogenesis'',
     KO_count = 2\<rparr>
     \<in> set (groupby_size (group_keys [''map00010'', ''map00010'']
               [''map00010'' \<mapsto> ''Glycolysis / Gluconeogenesis''])) \<and>
   files (snd (main by_count_desc plain_args wide_cache_world)) (output_file plain_args) =
     Some (''pathway_id'' @ [TAB] @ ''pathway_description'' @ [TAB] @ ''KO_count'' @ [LF] @
           ''map00010'' @ [TAB] @ ''Glycolysis / Gluconeogenesis'' @ [TAB] @ ''2'' @ [LF])"
proof -
  let ?edges = "[(''K00001'', ''map00010''), (''K00002'', ''map00010'')]"
  let ?dm = "[''map00010'' \<mapsto> ''Glycolysis / Gluconeogenesis'']"
  let ?w2 = "wide_cache_world\<lparr>trace := [Get (list_url ''map00010''), Sleep 200]\<rparr>"
  let ?row = "\<lparr>pathway_id = ''map00010'', pathway_description = ''Glycolysis / Gluconeogenesis'',
     KO_count = 2\<rparr>"
  have h1: "cache plain_args \<noteq> []" by (simp add: plain_args_def)
  have h2: "files wide_cache_world (cache plain_args) = Some (cache_file_text ?edges)"
    by (simp add: plain_args_def wide_cache_world_def wide_cache_edges)
  have h4: "preprocess_input wide_cache_world (input plain_args) = Inr [(''g1'', ''K00001'')]"
    using wide_input by (simp add: plain_args_def)
  have h5: "fetch_pathway_descriptions wide_cache_world (unique (map snd ?edges)) = (Inr ?dm, ?w2)"
    using wide_descriptions by simp
  have h6: "filtering ?w2 (exclude plain_args) (groupby_size (group_keys (map snd ?edges) ?dm)) =
      Inr [?row]"
    using wide_groups by (simp add: filtering_def plain_args_def)
  note c = cached_edges_in_aggregation [OF h1 h2 wide_edges_plain h4 h5 h6, of by_count_desc]
  from c have m: "fetch_ko_pathway_mapping wide_cache_world [''K00001''] (Some (cache plain_args)) =
     (Inr (edge_frame ?edges), wide_cache_world)"
    by blast
  from c have "\<exists>d. ?dm (snd (''K00002'', ''map00010'')) = Some d \<and>
      \<lparr>pathway_id = snd (''K00002'', ''map00010''), pathway_description = d,
        KO_count = count_list (map snd ?edges) (snd (''K00002'', ''map00010''))\<rparr>
        \<in> set (groupby_size (group_keys (map snd ?edges) ?dm))"
    by (metis list.set_intros(1,2))
  then have g: "?row \<in> set (groupby_size (group_keys [''map00010'', ''map00010''] ?dm))"
    by (simp add: numeral_2_eq_2)
  from c have "files (snd (main by_count_desc plain_args wide_cache_world)) (output_file plain_args) =
      Some (to_csv (summary_frame (by_count_desc (drop_duplicates [?row]))))"
    by blast
  then have f: "files (snd (main by_count_desc plain_args wide_cache_world)) (output_file plain_args) =
     Some (''pathway_id'' @ [TAB] @ ''pathway_description'' @ [TAB] @ ''KO_count'' @ [LF] @
           ''map00010'' @ [TAB] @ ''Glycolysis / Gluconeogenesis'' @ [TAB] @ ''2'' @ [LF])"
    unfolding wide_summary_text .
  show ?thesis using h1 h2 h4 m g f by blast
qed

text \<open>
  Claim C9 as stated fails in its last part. The cache holds the edge (K00002, map00020)
  of a code that the input does not name; the edge is returned, but its group has the same
  description as the group of map00010 and is removed by the deduplication, so the summary
  does not count it.
\<close>

theorem extra_edge_lost_in_summary:
  "preprocess_input unknown_world ''genes.tsv'' = Inr [(''g1'', ''K00001'')] \<and>
   fst (fetch_ko_pathway_mapping unknown_world [''K00001''] (Some ''kegg_ko_pathway_map.tsv'')) =
     Inr \<lparr>columns = [''ko'', ''pathway_id''],
          rows = [[''K00002'', ''map00020''], [''K00001'', ''map00010'']]\<rparr> \<and>
   fst (main by_count_desc plain_args unknown_world) = Inr () \<and>
   files (snd (main by_count_desc plain_args unknown_world)) ''kegg_pathway_summary.tsv'' =
     Some (''pathway_id'' @ [TAB] @ ''pathway_description'' @ [TAB] @ ''KO_count'' @ [LF] @
           ''map00010'' @ [TAB] @ ''Unknown'' @ [TAB] @ ''1'' @ [LF])"
  by code_simp

text \<open>
  A whole run on that cache: the input names K00001 only, the summary counts two codes for
  map00010, and the only request is the one for the description.
\<close>

lemma main_counts_cached_edges:
  "fst (main by_count_desc plain_args wide_cache_world) = Inr () \<and>
   preprocess_input wide_cache_world ''genes.tsv'' = Inr [(''g1'', ''K00001'')] \<and>
   files (snd (main by_count_desc plain_args wide_cache_world)) ''kegg_pathway_summary.tsv'' =
     Some (''pathway_id'' @ [TAB] @ ''pathway_description'' @ [TAB] @ ''KO_count'' @ [LF] @
           ''map00010'' @ [TAB] @ ''Glycolysis / Gluconeogenesis'' @ [TAB] @ ''2'' @ [LF]) \<and>
   trace (snd (main by_count_desc plain_args wide_cache_world)) =
     [Get (list_url ''map00010''), Sleep 200]"
  by code_simp

end
